theory Spec2Isabelle
  imports Main "HOL-Library.Word" "HOL-Library.AList"
begin

section \<open>Identifiers and attributes\<close>

text \<open>
  Modelled from the spec: the identifier types, whose declarations are not among the
  files; the fields are the ones the code and its tests use. A peer ID is a 64-bit clock
  component and a 16-bit random component; a session ID is a peer ID and a 32-bit
  sequence number; a ref is a session ID and a revision number; a message ID is a ref and
  a 32-bit sequence number. The revision number is an unsigned integer. Go's unsigned
  integers all have a fixed width, which is a parameter here: the records take the type
  \<open>'v\<close> of revision numbers, and the functions use them at \<open>'r word\<close> for any width
  \<open>'r\<close>.
\<close>

record PeerID =
  Clock :: "64 word"
  Rand :: "16 word"

record SessionID =
  Peer :: PeerID
  Seq :: "32 word"

record 'v Ref =
  ID :: SessionID
  Rev :: 'v

record 'v MessageID =
  MsgRef :: "'v Ref"
  MsgSeq :: "32 word"

text \<open>
  Modelled from the spec: \<open>id.At(rev)\<close> and \<open>ref.Message(seq)\<close>, which build the
  composite identifiers from their parts.
\<close>

definition At_id :: "SessionID \<Rightarrow> 'v \<Rightarrow> 'v Ref" where
  "At_id sid n = \<lparr>ID = sid, Rev = n\<rparr>"

definition Message :: "'v Ref \<Rightarrow> 32 word \<Rightarrow> 'v MessageID" where
  "Message r s = \<lparr>MsgRef = r, MsgSeq = s\<rparr>"

text \<open>
  Modelled from the spec: the attribute (key, value and frozen flag), whose declaration
  is not among the files.
\<close>

record Attr =
  Key :: string
  Value :: string
  IsFrozen :: bool

text \<open>
  Modelled from the spec: the attribute with meta data, which embeds the attribute and
  adds the revisions at which it was created and last updated.
\<close>

record 'v MetaAttr =
  attr :: Attr
  CreatedAt :: 'v
  UpdatedAt :: 'v

text \<open>Go's zero values, which a map read of an absent key returns.\<close>

definition zero_Attr :: Attr where
  "zero_Attr = \<lparr>Key = [], Value = [], IsFrozen = False\<rparr>"

definition zero_MetaAttr :: "('v::zero) MetaAttr" where
  "zero_MetaAttr = \<lparr>attr = zero_Attr, CreatedAt = 0, UpdatedAt = 0\<rparr>"

text \<open>
  Go maps are association lists read with \<open>map_of\<close> and written with
  \<open>AList.update\<close>; the order of the list is the order in which \<open>range\<close> visits
  the entries.
\<close>

type_synonym 'v Namespace = "(string \<times> 'v MetaAttr) list"
type_synonym 'v Table = "(string \<times> 'v Namespace) list"
type_synonym Constraint = "(string \<times> string) list"

definition ns_get :: "('v::zero) Namespace \<Rightarrow> string \<Rightarrow> 'v MetaAttr" where
  "ns_get t k = (case map_of t k of None \<Rightarrow> zero_MetaAttr | Some e \<Rightarrow> e)"

definition table_get :: "'v Table \<Rightarrow> string \<Rightarrow> 'v Namespace" where
  "table_get t n = (case map_of t n of None \<Rightarrow> [] | Some ns \<Rightarrow> ns)"

section \<open>Constraint matching\<close>

text \<open>
  In \<open>table.go\<close> the map from attribute keys to attributes with meta data is called
  \<open>Table\<close>; it is the type \<open>Namespace\<close> here. The constraint is a Go map from keys to
  values, visited pair by pair.
\<close>

fun MatchConstraint :: "('v::zero) Namespace \<Rightarrow> Constraint \<Rightarrow> bool" where
  "MatchConstraint t [] = True"
| "MatchConstraint t ((key, val) # rest) =
     (if Value (attr (ns_get t key)) \<noteq> val then False else MatchConstraint t rest)"

section \<open>The catalog\<close>

datatype 'v error =
    NotFoundError SessionID
  | StaleUpdateError "'v Ref"
  | FrozenAttributesError "'v Ref" "string list"
  | ErrorString string

text \<open>
  Modelled from the spec: the diff of an update (\<open>attrmeta.Diff\<close>, whose source is not
  among the files). It records the namespace, the revision and the changed entries in the
  order they were appended; it is empty when nothing was appended.
\<close>

record 'v Diff =
  diff_ns :: string
  diff_rev :: 'v
  diff_attrs :: "'v MetaAttr list"

definition NewDiff :: "string \<Rightarrow> 'v \<Rightarrow> nat \<Rightarrow> 'v Diff" where
  "NewDiff ns r cap = \<lparr>diff_ns = ns, diff_rev = r, diff_attrs = []\<rparr>"

definition Append :: "'v Diff \<Rightarrow> 'v MetaAttr \<Rightarrow> 'v Diff" where
  "Append d e = d\<lparr>diff_attrs := diff_attrs d @ [e]\<rparr>"

definition IsEmpty :: "'v Diff \<Rightarrow> bool" where
  "IsEmpty d = (diff_attrs d = [])"

text \<open>
  Modelled from the spec: \<open>Table.CloneAndMerge\<close> (not among the files) returns a copy of
  the table in which the namespace \<open>ns\<close> is the given one.
\<close>

definition CloneAndMerge :: "'v Table \<Rightarrow> string \<Rightarrow> 'v Namespace \<Rightarrow> 'v Table" where
  "CloneAndMerge t ns nextAttrs = AList.update ns nextAttrs t"

text \<open>
  The revision handle of a local session holds its ref and the attribute table it was
  built with (its pointer back to the catalog and the logger carry no data of their own).
  The catalog holds the current ref, the table, the message sequence counter and the
  \<open>done\<close> channel, which is either open or closed.
\<close>

record 'v revision =
  rev_ref :: "'v Ref"
  rev_attrs :: "'v Table"

record 'v catalog =
  ref :: "'v Ref"
  attrs :: "'v Table"
  seq :: "32 word"
  is_done :: bool

definition NewCatalog :: "SessionID \<Rightarrow> ('r::len) word catalog" where
  "NewCatalog sid = \<lparr>ref = At_id sid 0, attrs = [], seq = 0, is_done = False\<rparr>"

definition NextMessageID ::
  "('r::len) word catalog \<Rightarrow> ('r word MessageID \<times> 'r word Table) \<times> 'r word catalog" where
  "NextMessageID c =
     (let c' = c\<lparr>seq := seq c + 1\<rparr>
      in ((Message (ref c') (seq c'), attrs c'), c'))"

definition Head :: "('r::len) word catalog \<Rightarrow> 'r word revision" where
  "Head c = \<lparr>rev_ref = ref c, rev_attrs = attrs c\<rparr>"

definition At :: "('r::len) word catalog \<Rightarrow> 'r word \<Rightarrow> 'r word error + 'r word revision" where
  "At c n =
     (if Rev (ref c) < n then Inl (ErrorString ''revision is from the future'')
      else Inr \<lparr>rev_ref = At_id (ID (ref c)) n, rev_attrs = attrs c\<rparr>)"

text \<open>The loop of \<open>TryUpdate\<close> over the proposed attributes, in slice order.\<close>

fun update_loop ::
  "('r::len) word Ref \<Rightarrow> 'r word \<Rightarrow> Attr list \<Rightarrow> 'r word Namespace \<Rightarrow> 'r word Diff
   \<Rightarrow> 'r word error + ('r word Namespace \<times> 'r word Diff)" where
  "update_loop rf nextRev [] nextAttrs diff = Inr (nextAttrs, diff)"
| "update_loop rf nextRev (a # rest) nextAttrs diff =
     (let entry = ns_get nextAttrs (Key a);
          exists = (map_of nextAttrs (Key a) \<noteq> None)
      in if Value a = Value (attr entry) \<and> IsFrozen a = IsFrozen (attr entry)
         then update_loop rf nextRev rest nextAttrs diff
         else if IsFrozen (attr entry) then Inl (FrozenAttributesError rf [])
         else
           let entry1 = entry\<lparr>attr := a, UpdatedAt := nextRev\<rparr>;
               entry2 = (if \<not> exists then entry1\<lparr>CreatedAt := nextRev\<rparr> else entry1)
           in update_loop rf nextRev rest
                (AList.update (Key a) entry2 nextAttrs) (Append diff entry2))"

definition TryUpdate ::
  "('r::len) word catalog \<Rightarrow> 'r word Ref \<Rightarrow> string \<Rightarrow> Attr list
   \<Rightarrow> ('r word error + ('r word revision \<times> 'r word Diff)) \<times> 'r word catalog" where
  "TryUpdate c rf ns as =
     (if is_done c then (Inl (NotFoundError (ID (ref c))), c)
      else if rf \<noteq> ref c then (Inl (StaleUpdateError rf), c)
      else
        let nextRev = Rev rf + 1;
            nextAttrs = table_get (attrs c) ns
        in case update_loop rf nextRev as nextAttrs (NewDiff ns nextRev (length as)) of
             Inl e \<Rightarrow> (Inl e, c)
           | Inr (nextAttrs', diff) \<Rightarrow>
               let c1 = c\<lparr>ref := (ref c)\<lparr>Rev := nextRev\<rparr>, seq := 0\<rparr>;
                   c2 = (if \<not> IsEmpty diff
                         then c1\<lparr>attrs := CloneAndMerge (attrs c1) ns nextAttrs'\<rparr>
                         else c1)
               in (Inr (\<lparr>rev_ref = ref c2, rev_attrs = attrs c2\<rparr>, diff), c2))"

text \<open>The loop of \<open>TryClear\<close> over the entries of the namespace.\<close>

fun clear_loop ::
  "('r::len) word Ref \<Rightarrow> 'r word \<Rightarrow> 'r word Namespace \<Rightarrow> 'r word Namespace \<Rightarrow> 'r word Diff
   \<Rightarrow> 'r word error + ('r word Namespace \<times> 'r word Diff)" where
  "clear_loop rf nextRev [] nextAttrs diff = Inr (nextAttrs, diff)"
| "clear_loop rf nextRev ((k, entry) # rest) nextAttrs diff =
     (if Value (attr entry) \<noteq> []
      then
        if IsFrozen (attr entry) then Inl (FrozenAttributesError rf [])
        else
          let entry' = entry\<lparr>attr := (attr entry)\<lparr>Value := []\<rparr>, UpdatedAt := nextRev\<rparr>
          in clear_loop rf nextRev rest
               (AList.update (Key (attr entry')) entry' nextAttrs) (Append diff entry')
      else clear_loop rf nextRev rest (AList.update (Key (attr entry)) entry nextAttrs) diff)"

definition TryClear ::
  "('r::len) word catalog \<Rightarrow> 'r word Ref \<Rightarrow> string
   \<Rightarrow> ('r word error + ('r word revision \<times> 'r word Diff)) \<times> 'r word catalog" where
  "TryClear c rf ns =
     (if is_done c then (Inl (NotFoundError (ID (ref c))), c)
      else if rf \<noteq> ref c then (Inl (StaleUpdateError rf), c)
      else
        let as = table_get (attrs c) ns;
            nextRev = Rev rf + 1
        in case clear_loop rf nextRev as [] (NewDiff ns nextRev 0) of
             Inl e \<Rightarrow> (Inl e, c)
           | Inr (nextAttrs, diff) \<Rightarrow>
               let c1 = c\<lparr>ref := (ref c)\<lparr>Rev := nextRev\<rparr>, seq := 0\<rparr>;
                   c2 = (if \<not> IsEmpty diff
                         then c1\<lparr>attrs := CloneAndMerge (attrs c1) ns nextAttrs\<rparr>
                         else c1)
               in (Inr (\<lparr>rev_ref = ref c2, rev_attrs = attrs c2\<rparr>, diff), c2))"

definition TryDestroy :: "('r::len) word catalog \<Rightarrow> 'r word Ref \<Rightarrow> 'r word error option \<times> 'r word catalog" where
  "TryDestroy c rf =
     (if rf \<noteq> ref c then (Some (StaleUpdateError rf), c)
      else (None, c\<lparr>is_done := True\<rparr>))"

definition Close_catalog :: "'v catalog \<Rightarrow> 'v catalog" where
  "Close_catalog c = c\<lparr>is_done := True\<rparr>"

text \<open>Sequences of calls on one catalog.\<close>

datatype 'v call =
    CallUpdate "'v Ref" string "Attr list"
  | CallClear "'v Ref" string

fun apply_call ::
  "('r::len) word catalog \<Rightarrow> 'r word call
   \<Rightarrow> ('r word error + ('r word revision \<times> 'r word Diff)) \<times> 'r word catalog" where
  "apply_call c (CallUpdate rf ns as) = TryUpdate c rf ns as"
| "apply_call c (CallClear rf ns) = TryClear c rf ns"

fun run :: "('r::len) word catalog \<Rightarrow> 'r word call list \<Rightarrow> 'r word catalog" where
  "run c [] = c"
| "run c (x # xs) = run (snd (apply_call c x)) xs"

fun successes :: "('r::len) word catalog \<Rightarrow> 'r word call list \<Rightarrow> nat" where
  "successes c [] = 0"
| "successes c (x # xs) =
     (case apply_call c x of
        (Inl e, c') \<Rightarrow> successes c' xs
      | (Inr r, c') \<Rightarrow> Suc (successes c' xs))"

text \<open>
  Modelled from the spec: the attribute constructors \<open>Set\<close> and \<open>Freeze\<close> (used by the
  tests, not among the files), and the session \<open>1-0BAD.7\<close> of the specification's
  scenarios.
\<close>

definition Set_attr :: "string \<Rightarrow> string \<Rightarrow> Attr" where
  "Set_attr k v = \<lparr>Key = k, Value = v, IsFrozen = False\<rparr>"

definition Freeze_attr :: "string \<Rightarrow> string \<Rightarrow> Attr" where
  "Freeze_attr k v = \<lparr>Key = k, Value = v, IsFrozen = True\<rparr>"

definition example_id :: SessionID where
  "example_id = \<lparr>Peer = \<lparr>Clock = 1, Rand = 0x0BAD\<rparr>, Seq = 7\<rparr>"


text \<open>
  A proposed attribute is a no-op against a namespace when its value and frozen flag are
  those of the namespace's entry for its key (the zero entry when the key is absent).
\<close>

definition is_noop :: "('v::zero) Namespace \<Rightarrow> Attr \<Rightarrow> bool" where
  "is_noop na a =
     (Value a = Value (attr (ns_get na (Key a)))
      \<and> IsFrozen a = IsFrozen (attr (ns_get na (Key a))))"

definition all_noops :: "('v::zero) Namespace \<Rightarrow> Attr list \<Rightarrow> bool" where
  "all_noops na as = list_all (is_noop na) as"

text \<open>
  What the association lists must satisfy to stand for the catalog's Go maps: a namespace
  has each key once, and every entry is stored under the key of its own attribute (the
  catalog only ever stores an entry under \<open>attr.Key\<close>).
\<close>

definition wf_ns :: "'v Namespace \<Rightarrow> bool" where
  "wf_ns na = (distinct (map fst na) \<and> list_all (\<lambda>(k, e). Key (attr e) = k) na)"

definition wf_catalog :: "'v catalog \<Rightarrow> bool" where
  "wf_catalog c = list_all (\<lambda>(n, na). wf_ns na) (attrs c)"

text \<open>
  Sequences of calls that also ask for message IDs: the IDs that \<open>NextMessageID\<close>
  returns along the way, and whether a counter wraps around on the way (the sequence
  counter at a \<open>NextMessageID\<close>, the revision at a successful update or clear).
\<close>

datatype 'v step =
    StepNext
  | StepCall "'v call"

fun message_ids :: "('r::len) word catalog \<Rightarrow> 'r word step list \<Rightarrow> 'r word MessageID list" where
  "message_ids c [] = []"
| "message_ids c (StepNext # xs) =
     fst (fst (NextMessageID c)) # message_ids (snd (NextMessageID c)) xs"
| "message_ids c (StepCall x # xs) = message_ids (snd (apply_call c x)) xs"

fun no_wrap :: "('r::len) word catalog \<Rightarrow> 'r word step list \<Rightarrow> bool" where
  "no_wrap c [] = True"
| "no_wrap c (StepNext # xs) = (seq c \<noteq> - 1 \<and> no_wrap (snd (NextMessageID c)) xs)"
| "no_wrap c (StepCall x # xs) =
     (case apply_call c x of
        (Inl e, c') \<Rightarrow> no_wrap c' xs
      | (Inr r, c') \<Rightarrow> Rev (ref c) \<noteq> - 1 \<and> no_wrap c' xs)"

text \<open>The lexicographic order of message IDs by revision and sequence number.\<close>

definition id_less :: "('r::len) word MessageID \<Rightarrow> 'r word MessageID \<Rightarrow> bool" where
  "id_less a b =
     (Rev (MsgRef a) < Rev (MsgRef b)
      \<or> (Rev (MsgRef a) = Rev (MsgRef b) \<and> MsgSeq a < MsgSeq b))"

section \<open>The closed-session placeholder and the aggregate store\<close>

text \<open>
  A value of the \<open>Revision\<close> interface is the revision handle of a local session or the
  placeholder of a closed session, which in \<open>closed.go\<close> is a session ref; a nil interface
  value is \<open>None\<close>. Go's pairs of a result and an error are pairs here, the nil error
  being \<open>None\<close>. The contexts that the placeholder's methods receive are ignored by them.
\<close>

datatype 'v Revision =
    LocalRevision "'v revision"
  | closedRevision "'v Ref"

definition Closed :: "'v Ref \<Rightarrow> 'v Revision" where
  "Closed rf = closedRevision rf"

definition closed_Ref :: "'v Ref \<Rightarrow> 'v Ref" where
  "closed_Ref r = r"

definition closed_Refresh :: "'v Ref \<Rightarrow> 'v Revision option \<times> 'v error option" where
  "closed_Refresh r = (None, Some (NotFoundError (ID r)))"

definition closed_Get :: "'v Ref \<Rightarrow> string \<Rightarrow> Attr \<times> 'v error option" where
  "closed_Get r k = (zero_Attr, Some (NotFoundError (ID r)))"

definition closed_GetMany ::
  "'v Ref \<Rightarrow> string list \<Rightarrow> (string \<times> Attr) list option \<times> 'v error option" where
  "closed_GetMany r ks = (None, Some (NotFoundError (ID r)))"

definition closed_Update ::
  "'v Ref \<Rightarrow> Attr list \<Rightarrow> 'v Revision option \<times> 'v error option" where
  "closed_Update r as = (Some (closedRevision r), Some (NotFoundError (ID r)))"

definition closed_Close :: "'v Ref \<Rightarrow> 'v error option" where
  "closed_Close r = None"

text \<open>
  Modelled from the spec: the placeholder built from a session ID alone, as
  \<open>AggregateStore.GetRevision\<close> builds it with \<open>Closed(ref.ID)\<close>. The files hold only the
  constructor that takes a session ref; the placeholder of a session ID is taken to be
  the one of the ID's ref at revision 0. Of its answers only \<open>Ref\<close> depends on the
  revision.
\<close>

definition Closed_id :: "SessionID \<Rightarrow> ('v::zero) Revision" where
  "Closed_id sid = Closed (At_id sid 0)"

text \<open>
  A store is anything with a \<open>GetRevision\<close> method; the aggregate store holds the own peer's
  ID and two stores, each of which may be nil.
\<close>

type_synonym 'v Store = "'v Ref \<Rightarrow> 'v Revision option \<times> 'v error option"

record 'v AggregateStore =
  agg_PeerID :: PeerID
  Local :: "'v Store option"
  Remote :: "'v Store option"

definition GetRevision ::
  "('v::zero) AggregateStore \<Rightarrow> 'v Ref \<Rightarrow> 'v Revision option \<times> 'v error option" where
  "GetRevision s rf =
     (if Peer (ID rf) = agg_PeerID s
      then (case Local s of
              Some l \<Rightarrow> l rf
            | None \<Rightarrow> (Some (Closed_id (ID rf)), None))
      else (case Remote s of
              Some r \<Rightarrow> r rf
            | None \<Rightarrow> (Some (Closed_id (ID rf)), None)))"

text \<open>
  A store over one catalog, for the examples (the repository's local store is not among
  the files): it answers a ref of the catalog's session with \<open>catalog.At\<close>, which returns a
  nil revision together with its error, and any other ref with the placeholder.
\<close>

definition catalog_store :: "('r::len) word catalog \<Rightarrow> 'r word Store" where
  "catalog_store c rf =
     (if ID rf = ID (ref c)
      then (case At c (Rev rf) of
              Inl e \<Rightarrow> (None, Some e)
            | Inr r \<Rightarrow> (Some (LocalRevision r), None))
      else (Some (Closed_id (ID rf)), None))"

section \<open>The response to a command request\<close>

text \<open>
  The reply modes (their declaration is not among the files; the code names \<open>replyNone\<close>
  and \<open>replyUncorrelated\<close>), the errors a handler can respond with, and the body of a
  published response: a success with an optional payload or an error.
\<close>

datatype replyMode = replyNone | replyCorrelated | replyUncorrelated

datatype resp_error = Failure string string | OtherError string

datatype 'p body = SuccessBody "'p option" | ErrorBody resp_error

text \<open>
  What the transport does when \<open>respond\<close> runs is outside the response: whether the
  context's deadline has passed, and the errors, if any, of getting a channel, of packing
  the span context and of publishing.
\<close>

record transport =
  deadline_passed :: bool
  get_error :: "string option"
  span_error :: "string option"
  publish_error :: "string option"

text \<open>
  The response holds its reply mode and whether it is closed; \<open>published\<close> collects the
  bodies it has published. A call returns a value or panics, and in both cases leaves a
  state behind.
\<close>

record 'p response =
  replyMode :: replyMode
  isClosed :: bool
  published :: "'p body list"

datatype 'a outcome = Returned 'a | Panicked string

definition respond :: "'p response \<Rightarrow> transport \<Rightarrow> 'p body \<Rightarrow> unit outcome \<times> 'p response" where
  "respond r t msg =
     (let r1 = r\<lparr>isClosed := True\<rparr>
      in if replyMode r1 = replyNone then (Returned (), r1)
         else if deadline_passed t then (Returned (), r1)
         else case get_error t of
                Some e \<Rightarrow> (Panicked e, r1)
              | None \<Rightarrow>
                  (case (if replyMode r1 = replyUncorrelated then span_error t else None) of
                     Some e \<Rightarrow> (Panicked e, r1)
                   | None \<Rightarrow>
                       (case publish_error t of
                          Some e \<Rightarrow> (Panicked e, r1)
                        | None \<Rightarrow> (Returned (), r1\<lparr>published := published r1 @ [msg]\<rparr>))))"

definition IsClosed :: "'p response \<Rightarrow> bool" where
  "IsClosed r = isClosed r"

definition Done :: "'p response \<Rightarrow> transport \<Rightarrow> 'p option \<Rightarrow> unit outcome \<times> 'p response" where
  "Done r t payload =
     (if isClosed r then (Panicked ''responder is already closed'', r)
      else respond r t (SuccessBody payload))"

definition Error :: "'p response \<Rightarrow> transport \<Rightarrow> resp_error \<Rightarrow> unit outcome \<times> 'p response" where
  "Error r t err =
     (if isClosed r then (Panicked ''responder is already closed'', r)
      else respond r t (ErrorBody err))"

text \<open>\<open>Fail\<close> receives the message already formatted.\<close>

definition Fail ::
  "'p response \<Rightarrow> transport \<Rightarrow> string \<Rightarrow> string \<Rightarrow> resp_error outcome \<times> 'p response" where
  "Fail r t ty message =
     (let err = Failure ty message
      in case Error r t err of
           (Returned u, r') \<Rightarrow> (Returned err, r')
         | (Panicked p, r') \<Rightarrow> (Panicked p, r'))"

definition Close :: "'p response \<Rightarrow> transport \<Rightarrow> bool outcome \<times> 'p response" where
  "Close r t =
     (if isClosed r then (Returned False, r)
      else case respond r t (SuccessBody None) of
             (Returned u, r') \<Rightarrow> (Returned True, r')
           | (Panicked p, r') \<Rightarrow> (Panicked p, r'))"

definition finalize :: "'p response \<Rightarrow> bool \<times> 'p response" where
  "finalize r = (if isClosed r then (True, r) else (False, r\<lparr>isClosed := True\<rparr>))"

section \<open>Payloads\<close>

text \<open>
  The data that payloads share: the encoded buffer (nil until the payload is encoded), the
  decoded value and its flag, and the number of payload structures that point to it. The
  count is a Go \<open>uint\<close>, whose width depends on the platform and is a parameter here.
\<close>

record ('x, 'c) payloadData =
  buffer :: "8 word list option"
  payload_value :: "'x option"
  hasValue :: bool
  refCount :: 'c

text \<open>
  Payload structures and their data live in a store, by address: \<open>payloads\<close> gives the
  \<open>data\<close> pointer of the \<open>Payload\<close> structure at an address (\<open>None\<close> is nil), \<open>datas\<close> the
  shared data at an address; the two counters are the next addresses to allocate, and
  \<open>pool\<close> holds the buffers that were put back into the buffer pool. A \<open>*Payload\<close> is an
  address or nil.
\<close>

record ('x, 'c) heap =
  payloads :: "nat \<Rightarrow> nat option"
  datas :: "nat \<Rightarrow> ('x, 'c) payloadData"
  next_payload :: nat
  next_data :: nat
  pool :: "8 word list list"

definition NewPayloadFromBytes ::
  "('x, ('c::len) word) heap \<Rightarrow> 8 word list \<Rightarrow> nat option \<times> ('x, 'c word) heap" where
  "NewPayloadFromBytes h buf =
     (if length buf = 0 then (None, h)
      else
        let d = next_data h; a = next_payload h
        in (Some a,
            h\<lparr>payloads := (payloads h)(a := Some d),
              datas := (datas h)(d :=
                \<lparr>buffer = Some buf, payload_value = None, hasValue = False, refCount = 1\<rparr>),
              next_payload := a + 1, next_data := d + 1\<rparr>))"

definition Clone ::
  "('x, ('c::len) word) heap \<Rightarrow> nat option \<Rightarrow> nat option \<times> ('x, 'c word) heap" where
  "Clone h p =
     (case p of
        None \<Rightarrow> (None, h)
      | Some a \<Rightarrow>
          (case payloads h a of
             None \<Rightarrow> (None, h)
           | Some d \<Rightarrow>
               let h1 = h\<lparr>datas := (datas h)(d :=
                          (datas h d)\<lparr>refCount := refCount (datas h d) + 1\<rparr>)\<rparr>;
                   a' = next_payload h1
               in (Some a',
                   h1\<lparr>payloads := (payloads h1)(a' := Some d), next_payload := a' + 1\<rparr>)))"

definition Close_payload ::
  "('x, ('c::len) word) heap \<Rightarrow> nat option \<Rightarrow> ('x, 'c word) heap" where
  "Close_payload h p =
     (case p of
        None \<Rightarrow> h
      | Some a \<Rightarrow>
          (case payloads h a of
             None \<Rightarrow> h
           | Some d \<Rightarrow>
               let h1 = h\<lparr>payloads := (payloads h)(a := None)\<rparr>;
                   h2 = h1\<lparr>datas := (datas h1)(d :=
                          (datas h1 d)\<lparr>refCount := refCount (datas h1 d) - 1\<rparr>)\<rparr>
               in if refCount (datas h2 d) = 0
                  then (case buffer (datas h2 d) of
                          Some b \<Rightarrow> h2\<lparr>pool := b # pool h2\<rparr>
                        | None \<Rightarrow> h2)
                  else h2))"

definition empty_heap :: "('x, ('c::len) word) heap" where
  "empty_heap =
     \<lparr>payloads = (\<lambda>a. None),
      datas = (\<lambda>d. \<lparr>buffer = None, payload_value = None, hasValue = False, refCount = 0\<rparr>),
      next_payload = 0, next_data = 0, pool = []\<rparr>"

section \<open>The older catalog\<close>

text \<open>
  The older catalog (\<open>internals/localsession/catalog.go\<close>) has one flat attribute table
  and a flag instead of the \<open>done\<close> channel. Its \<open>TryUpdate\<close> writes a rendering of each
  change to an optional \<open>io.Writer\<close>. A writer is a state and a function that, given a
  string, appends it or fails with an error; \<open>WriteError\<close> is the writer's error as
  \<open>TryUpdate\<close> returns it. \<open>writeDiff\<close> stops at the first write that fails and returns
  its error.
\<close>

record 'v legacy_catalog =
  l_ref :: "'v Ref"
  l_attrs :: "'v Namespace"
  l_seq :: "32 word"
  l_isClosed :: bool

type_synonym 'w Writer = "'w \<Rightarrow> string \<Rightarrow> string option \<times> 'w"

datatype 'v legacy_error =
    LegacyNotFound SessionID
  | LegacyStaleUpdate "'v Ref"
  | LegacyFrozenAttributes "'v Ref" "string list"
  | WriteError string

fun write_all :: "'w Writer \<Rightarrow> 'w \<Rightarrow> string list \<Rightarrow> string option \<times> 'w" where
  "write_all wr w [] = (None, w)"
| "write_all wr w (s # ss) =
     (case wr w s of
        (Some e, w') \<Rightarrow> (Some e, w')
      | (None, w') \<Rightarrow> write_all wr w' ss)"

definition writeDiff :: "'w Writer \<Rightarrow> 'w \<Rightarrow> ('v::zero) MetaAttr \<Rightarrow> string option \<times> 'w" where
  "writeDiff wr w e =
     write_all wr w
       (if Value (attr e) = []
        then [if IsFrozen (attr e) then ''!'' else ''-'', Key (attr e)]
        else (if CreatedAt e = UpdatedAt e then [''+''] else [])
             @ [Key (attr e), if IsFrozen (attr e) then ''@'' else ''='', Value (attr e)])"

fun legacy_loop ::
  "'w Writer \<Rightarrow> ('r::len) word \<Rightarrow> nat \<Rightarrow> Attr list \<Rightarrow> 'r word Namespace \<Rightarrow> string list
   \<Rightarrow> 'w option \<Rightarrow> (string + 'r word Namespace \<times> string list) \<times> 'w option" where
  "legacy_loop wr nextRev index [] nextAttrs frozen diff = (Inr (nextAttrs, frozen), diff)"
| "legacy_loop wr nextRev index (a # rest) nextAttrs frozen diff =
     (let entry = ns_get nextAttrs (Key a);
          exists = (map_of nextAttrs (Key a) \<noteq> None)
      in if Value a = Value (attr entry) \<and> IsFrozen a = IsFrozen (attr entry)
         then legacy_loop wr nextRev (Suc index) rest nextAttrs frozen diff
         else if IsFrozen (attr entry)
         then legacy_loop wr nextRev (Suc index) rest nextAttrs (frozen @ [Key a]) diff
         else
           let entry1 = (if \<not> exists
                         then entry\<lparr>attr := (attr entry)\<lparr>Key := Key a\<rparr>, CreatedAt := nextRev\<rparr>
                         else entry);
               entry2 = entry1\<lparr>attr := (attr entry1)\<lparr>Value := Value a\<rparr>, UpdatedAt := nextRev\<rparr>;
               nextAttrs' = AList.update (Key a) entry2 nextAttrs
           in case diff of
                None \<Rightarrow> legacy_loop wr nextRev (Suc index) rest nextAttrs' frozen diff
              | Some w \<Rightarrow>
                  (case (if index > 0 then wr w '', '' else (None, w)) of
                     (Some e, w1) \<Rightarrow> (Inl e, Some w1)
                   | (None, w1) \<Rightarrow>
                       (case writeDiff wr w1 entry2 of
                          (Some e, w2) \<Rightarrow> (Inl e, Some w2)
                        | (None, w2) \<Rightarrow>
                            legacy_loop wr nextRev (Suc index) rest nextAttrs' frozen (Some w2))))"

definition TryUpdate_legacy ::
  "('r::len) word legacy_catalog \<Rightarrow> 'r word Ref \<Rightarrow> Attr list \<Rightarrow> 'w Writer \<Rightarrow> 'w option
   \<Rightarrow> ('r word legacy_error + 'r word Ref \<times> 'r word Namespace)
      \<times> 'r word legacy_catalog \<times> 'w option" where
  "TryUpdate_legacy c rf as wr diff =
     (if l_isClosed c then (Inl (LegacyNotFound (ID (l_ref c))), c, diff)
      else if rf \<noteq> l_ref c then (Inl (LegacyStaleUpdate rf), c, diff)
      else
        let nextAttrs = l_attrs c;
            nextRev = Rev rf + 1
        in case legacy_loop wr nextRev 0 as nextAttrs [] diff of
             (Inl e, diff') \<Rightarrow> (Inl (WriteError e), c, diff')
           | (Inr (nextAttrs', frozen), diff') \<Rightarrow>
               if length frozen > 0 then (Inl (LegacyFrozenAttributes rf frozen), c, diff')
               else
                 let c' = c\<lparr>l_ref := (l_ref c)\<lparr>Rev := nextRev\<rparr>, l_attrs := nextAttrs',
                            l_seq := 0\<rparr>
                 in (Inr (l_ref c', l_attrs c'), c', diff'))"

section \<open>Properties of constraint matching\<close>

text \<open>
  C7: a table matches a constraint exactly when every pair of the constraint agrees with
  the table's value for its key, an absent key reading as the empty string; the empty
  constraint matches every table.
\<close>

theorem MatchConstraint_iff:
  "MatchConstraint t con = (\<forall>(k, v) \<in> set con. Value (attr (ns_get t k)) = v)
   \<and> (\<forall>k. map_of t k = None \<longrightarrow> Value (attr (ns_get t k)) = [])
   \<and> (\<forall>k e. map_of t k = Some e \<longrightarrow> ns_get t k = e)
   \<and> MatchConstraint t []"
proof -
  have "MatchConstraint t con = (\<forall>(k, v) \<in> set con. Value (attr (ns_get t k)) = v)"
    by (induction con) (auto split: if_splits)
  then show ?thesis
    by (simp add: ns_get_def zero_MetaAttr_def zero_Attr_def)
qed

text \<open>
  The scenario of the specification: the constraint \<open>{a: "1", b: ""}\<close> matches the table
  \<open>{a=1}\<close>, the absent \<open>b\<close> reading as empty, and rejects \<open>{a=2}\<close>.
\<close>

theorem MatchConstraint_iff_witness:
  "MatchConstraint
     [(''a'', \<lparr>attr = \<lparr>Key = ''a'', Value = ''1'', IsFrozen = False\<rparr>,
              CreatedAt = 1 :: 32 word, UpdatedAt = 1\<rparr>)]
     [(''a'', ''1''), (''b'', '''')]
   \<and> \<not> MatchConstraint
     [(''a'', \<lparr>attr = \<lparr>Key = ''a'', Value = ''2'', IsFrozen = False\<rparr>,
              CreatedAt = 1 :: 32 word, UpdatedAt = 1\<rparr>)]
     [(''a'', ''1''), (''b'', '''')]"
  using
    MatchConstraint_iff [of
      "[(''a'', \<lparr>attr = \<lparr>Key = ''a'', Value = ''1'', IsFrozen = False\<rparr>,
               CreatedAt = 1 :: 32 word, UpdatedAt = 1\<rparr>)]"
      "[(''a'', ''1''), (''b'', '''')]"]
    MatchConstraint_iff [of
      "[(''a'', \<lparr>attr = \<lparr>Key = ''a'', Value = ''2'', IsFrozen = False\<rparr>,
               CreatedAt = 1 :: 32 word, UpdatedAt = 1\<rparr>)]"
      "[(''a'', ''1''), (''b'', '''')]"]
  by (simp add: ns_get_def zero_MetaAttr_def zero_Attr_def)

section \<open>Revisions of the catalog\<close>


lemma update_loop_Inl:
  "update_loop rf n as na d = Inl e \<Longrightarrow> e = FrozenAttributesError rf []"
  by (induction rf n as na d rule: update_loop.induct) (auto simp: Let_def split: if_splits)

lemma clear_loop_Inl:
  "clear_loop rf n as na d = Inl e \<Longrightarrow> e = FrozenAttributesError rf []"
  by (induction rf n as na d rule: clear_loop.induct) (auto simp: Let_def split: if_splits)

lemma TryUpdate_Inl:
  "TryUpdate c rf ns as = (Inl e, c') \<Longrightarrow>
     c' = c \<and> (e = NotFoundError (ID (ref c)) \<or> e = StaleUpdateError rf
               \<or> e = FrozenAttributesError rf [])"
  by (auto simp: TryUpdate_def Let_def split: if_splits sum.splits prod.splits dest: update_loop_Inl)

lemma TryUpdate_Inr:
  "TryUpdate c rf ns as = (Inr r, c') \<Longrightarrow>
     ref c' = (ref c)\<lparr>Rev := Rev (ref c) + 1\<rparr> \<and> seq c' = 0 \<and> is_done c' = is_done c
     \<and> \<not> is_done c \<and> rf = ref c"
  by (auto simp: TryUpdate_def Let_def split: if_splits sum.splits prod.splits)

lemma TryClear_Inl:
  "TryClear c rf ns = (Inl e, c') \<Longrightarrow>
     c' = c \<and> (e = NotFoundError (ID (ref c)) \<or> e = StaleUpdateError rf
               \<or> e = FrozenAttributesError rf [])"
  by (auto simp: TryClear_def Let_def split: if_splits sum.splits prod.splits dest: clear_loop_Inl)

lemma TryClear_Inr:
  "TryClear c rf ns = (Inr r, c') \<Longrightarrow>
     ref c' = (ref c)\<lparr>Rev := Rev (ref c) + 1\<rparr> \<and> seq c' = 0 \<and> is_done c' = is_done c
     \<and> \<not> is_done c \<and> rf = ref c"
  by (auto simp: TryClear_def Let_def split: if_splits sum.splits prod.splits)

lemma apply_call_Inl:
  "apply_call c x = (Inl e, c') \<Longrightarrow>
     c' = c \<and> (e = NotFoundError (ID (ref c)) \<or> (\<exists>rf. e = StaleUpdateError rf)
               \<or> (\<exists>rf. e = FrozenAttributesError rf []))"
  by (cases x) (auto dest: TryUpdate_Inl TryClear_Inl)

lemma apply_call_Inr:
  "apply_call c x = (Inr r, c') \<Longrightarrow>
     ref c' = (ref c)\<lparr>Rev := Rev (ref c) + 1\<rparr> \<and> seq c' = 0 \<and> is_done c' = is_done c"
  by (cases x) (auto dest: TryUpdate_Inr TryClear_Inr)

lemma run_Rev:
  "Rev (ref (run c xs)) = Rev (ref c) + of_nat (successes c xs)
   \<and> ID (ref (run c xs)) = ID (ref c)"
proof (induction xs arbitrary: c)
  case Nil
  show ?case by simp
next
  case (Cons x xs)
  obtain res c' where ac: "apply_call c x = (res, c')" by (cases "apply_call c x")
  show ?case
  proof (cases res)
    case (Inl e)
    with ac have "c' = c" using apply_call_Inl by blast
    with ac Inl Cons.IH [of c] show ?thesis by simp
  next
    case (Inr r)
    with ac have "ref c' = (ref c)\<lparr>Rev := Rev (ref c) + 1\<rparr>" using apply_call_Inr by blast
    with ac Inr Cons.IH [of c'] show ?thesis by simp
  qed
qed

lemmas catalog_eval =
  TryUpdate_def TryClear_def NextMessageID_def At_def Head_def NewCatalog_def
  table_get_def ns_get_def NewDiff_def Append_def IsEmpty_def CloneAndMerge_def
  At_id_def Message_def zero_MetaAttr_def zero_Attr_def Set_attr_def Freeze_attr_def
  example_id_def Let_def

text \<open>
  C1: every successful \<open>TryUpdate\<close> or \<open>TryClear\<close> adds exactly 1 to the revision of the
  catalog's ref (in the arithmetic of the revision number's type) and resets the message
  sequence counter to 0; every failing call fails with \<open>NotFound\<close>, \<open>StaleUpdate\<close> or
  \<open>FrozenAttributes\<close> and leaves ref, table and counter as they were. Hence after any
  sequence of calls the revision is the initial one plus the number of successful calls,
  also as a number as long as the revision number's type can hold the sum.
\<close>

theorem catalog_rev_counts_successes:
  "(\<forall>x r c'. apply_call c x = (Inr r, c') \<longrightarrow>
      Rev (ref c') = Rev (ref c) + 1 \<and> ID (ref c') = ID (ref c) \<and> seq c' = 0)
   \<and> (\<forall>x e c'. apply_call c x = (Inl e, c') \<longrightarrow>
      ref c' = ref c \<and> attrs c' = attrs c \<and> seq c' = seq c
      \<and> (e = NotFoundError (ID (ref c)) \<or> (\<exists>rf. e = StaleUpdateError rf)
           \<or> (\<exists>rf. e = FrozenAttributesError rf [])))
   \<and> Rev (ref (run c xs)) = Rev (ref c) + of_nat (successes c xs)
   \<and> (unat (Rev (ref c)) + successes c xs < 2 ^ LENGTH('r) \<longrightarrow>
        unat (Rev (ref (run c xs))) = unat (Rev (ref c)) + successes c xs)"
  for c :: "('r::len) word catalog"
proof -
  have ok: "\<forall>x r c'. apply_call c x = (Inr r, c') \<longrightarrow>
      Rev (ref c') = Rev (ref c) + 1 \<and> ID (ref c') = ID (ref c) \<and> seq c' = 0"
    using apply_call_Inr [of c] by fastforce
  have err: "\<forall>x e c'. apply_call c x = (Inl e, c') \<longrightarrow>
      ref c' = ref c \<and> attrs c' = attrs c \<and> seq c' = seq c
      \<and> (e = NotFoundError (ID (ref c)) \<or> (\<exists>rf. e = StaleUpdateError rf)
           \<or> (\<exists>rf. e = FrozenAttributesError rf []))"
    using apply_call_Inl [of c] by blast
  have fin: "Rev (ref (run c xs)) = Rev (ref c) + of_nat (successes c xs)"
    using run_Rev [of c xs] by simp
  have "unat (Rev (ref (run c xs))) = unat (Rev (ref c)) + successes c xs"
    if "unat (Rev (ref c)) + successes c xs < 2 ^ LENGTH('r)"
    using that by (simp add: fin unat_word_ariths unat_of_nat)
  with ok err fin show ?thesis by blast
qed

theorem catalog_rev_counts_successes_witness:
  "run (NewCatalog example_id :: 32 word catalog)
     [CallUpdate (At_id example_id 0) ''ns'' [Set_attr ''a'' ''1''],
      CallUpdate (At_id example_id 0) ''ns'' [Set_attr ''a'' ''2''],
      CallUpdate (At_id example_id 1) ''ns'' [Set_attr ''a'' ''2''],
      CallClear (At_id example_id 2) ''ns'']
   = \<lparr>ref = At_id example_id 3,
      attrs = [(''ns'', [(''a'', \<lparr>attr = Set_attr ''a'' [], CreatedAt = 1, UpdatedAt = 3\<rparr>)])],
      seq = 0, is_done = False\<rparr>
   \<and> successes (NewCatalog example_id :: 32 word catalog)
     [CallUpdate (At_id example_id 0) ''ns'' [Set_attr ''a'' ''1''],
      CallUpdate (At_id example_id 0) ''ns'' [Set_attr ''a'' ''2''],
      CallUpdate (At_id example_id 1) ''ns'' [Set_attr ''a'' ''2''],
      CallClear (At_id example_id 2) ''ns''] = 3
   \<and> apply_call (NewCatalog example_id :: 32 word catalog)
        (CallUpdate (At_id example_id 5) ''ns'' [Set_attr ''a'' ''2''])
       = (Inl (StaleUpdateError (At_id example_id 5)), NewCatalog example_id)"
  using catalog_rev_counts_successes [of "NewCatalog example_id :: 32 word catalog"
     "[CallUpdate (At_id example_id 0) ''ns'' [Set_attr ''a'' ''1''],
      CallUpdate (At_id example_id 0) ''ns'' [Set_attr ''a'' ''2''],
      CallUpdate (At_id example_id 1) ''ns'' [Set_attr ''a'' ''2''],
      CallClear (At_id example_id 2) ''ns'']"]
  by (simp add: catalog_eval)

section \<open>Updates that change nothing\<close>

lemma update_loop_noops:
  "all_noops na as \<Longrightarrow> update_loop rf n as na d = Inr (na, d)"
  by (induction as) (auto simp: all_noops_def is_noop_def Let_def)

text \<open>
  C4, as amended: on an open catalog and with the current ref, a \<open>TryUpdate\<close> whose
  proposed attributes are all no-ops succeeds with an empty diff, leaves the attribute
  table as it is, and still advances the revision by 1 and resets the message sequence
  counter.
\<close>

theorem TryUpdate_noops_advances:
  "\<not> is_done c \<Longrightarrow> rf = ref c \<Longrightarrow> all_noops (table_get (attrs c) ns) as \<Longrightarrow>
     TryUpdate c rf ns as =
       (Inr (\<lparr>rev_ref = (ref c)\<lparr>Rev := Rev (ref c) + 1\<rparr>, rev_attrs = attrs c\<rparr>,
             NewDiff ns (Rev (ref c) + 1) (length as)),
        c\<lparr>ref := (ref c)\<lparr>Rev := Rev (ref c) + 1\<rparr>, seq := 0\<rparr>)"
  by (simp add: TryUpdate_def Let_def update_loop_noops IsEmpty_def NewDiff_def)

theorem TryUpdate_noops_advances_witness:
  "all_noops (table_get [(''ns'', [(''a'', \<lparr>attr = Set_attr ''a'' ''1'', CreatedAt = 1, UpdatedAt = 1\<rparr>)])] ''ns'')
      [Set_attr ''a'' ''1'', Set_attr ''b'' '''']
   \<and> TryUpdate
       \<lparr>ref = At_id example_id (1 :: 32 word),
        attrs = [(''ns'', [(''a'', \<lparr>attr = Set_attr ''a'' ''1'', CreatedAt = 1, UpdatedAt = 1\<rparr>)])],
        seq = 4, is_done = False\<rparr>
       (At_id example_id 1) ''ns'' [Set_attr ''a'' ''1'', Set_attr ''b'' '''']
     = (Inr (\<lparr>rev_ref = At_id example_id 2,
              rev_attrs = [(''ns'', [(''a'', \<lparr>attr = Set_attr ''a'' ''1'', CreatedAt = 1, UpdatedAt = 1\<rparr>)])]\<rparr>,
             NewDiff ''ns'' 2 2),
        \<lparr>ref = At_id example_id 2,
         attrs = [(''ns'', [(''a'', \<lparr>attr = Set_attr ''a'' ''1'', CreatedAt = 1, UpdatedAt = 1\<rparr>)])],
         seq = 0, is_done = False\<rparr>)"
  using TryUpdate_noops_advances [of
       "\<lparr>ref = At_id example_id (1 :: 32 word),
        attrs = [(''ns'', [(''a'', \<lparr>attr = Set_attr ''a'' ''1'', CreatedAt = 1, UpdatedAt = 1\<rparr>)])],
        seq = 4, is_done = False\<rparr>"
       "At_id example_id 1" "''ns''" "[Set_attr ''a'' ''1'', Set_attr ''b'' '''']"]
  by (simp add: all_noops_def is_noop_def table_get_def ns_get_def zero_MetaAttr_def
        zero_Attr_def Set_attr_def At_id_def NewDiff_def)

text \<open>
  The claim as stated, that such a call does not advance the revision, fails: proposing
  \<open>a=1\<close> again on a catalog at revision 1 that already holds \<open>a=1\<close> leaves it at
  revision 2.
\<close>

theorem TryUpdate_noops_counterexample:
  "\<not> is_done \<lparr>ref = At_id example_id (1 :: 32 word),
        attrs = [(''ns'', [(''a'', \<lparr>attr = Set_attr ''a'' ''1'', CreatedAt = 1, UpdatedAt = 1\<rparr>)])],
        seq = 4, is_done = False\<rparr>
   \<and> all_noops [(''a'', \<lparr>attr = Set_attr ''a'' ''1'', CreatedAt = 1 :: 32 word, UpdatedAt = 1\<rparr>)]
        [Set_attr ''a'' ''1'']
   \<and> Rev (ref (snd (TryUpdate
       \<lparr>ref = At_id example_id (1 :: 32 word),
        attrs = [(''ns'', [(''a'', \<lparr>attr = Set_attr ''a'' ''1'', CreatedAt = 1, UpdatedAt = 1\<rparr>)])],
        seq = 4, is_done = False\<rparr>
       (At_id example_id 1) ''ns'' [Set_attr ''a'' ''1'']))) = 2"
  by (simp add: TryUpdate_def all_noops_def is_noop_def table_get_def ns_get_def zero_MetaAttr_def
        zero_Attr_def Set_attr_def At_id_def Let_def NewDiff_def IsEmpty_def)

section \<open>Revision handles\<close>





section \<open>Changes to frozen attributes\<close>

lemma update_loop_frozen_change:
  "a \<in> set as \<Longrightarrow> map_of na (Key a) = Some e \<Longrightarrow> IsFrozen (attr e) \<Longrightarrow>
   \<not> (Value a = Value (attr e) \<and> IsFrozen a = IsFrozen (attr e)) \<Longrightarrow>
   update_loop rf n as na d = Inl (FrozenAttributesError rf [])"
proof (induction as arbitrary: na d)
  case Nil
  then show ?case by simp
next
  case (Cons b rest)
  show ?case
  proof (cases "b = a")
    case True
    with Cons.prems show ?thesis by (auto simp: ns_get_def Let_def)
  next
    case False
    with Cons.prems have mem: "a \<in> set rest" by simp
    show ?thesis
    proof (cases "Key b = Key a")
      case True
      with Cons.prems mem Cons.IH [of na d] show ?thesis
        by (auto simp: ns_get_def Let_def)
    next
      case False
      then have "map_of (AList.update (Key b) x na) (Key a) = Some e" for x
        using Cons.prems(2) by (simp add: update_conv')
      with Cons.prems mem Cons.IH show ?thesis
        by (simp add: Let_def)
    qed
  qed
qed

text \<open>
  C3, as amended: on an open catalog and with the current ref, a \<open>TryUpdate\<close> whose
  proposed attributes include one that differs, in value or frozen flag, from an existing
  frozen entry fails with a \<open>FrozenAttributes\<close> error that carries the caller's ref and
  no keys, and the catalog (ref, table and sequence counter) is exactly as before.
\<close>

theorem TryUpdate_frozen_change_fails:
  "\<not> is_done c \<Longrightarrow> rf = ref c \<Longrightarrow> a \<in> set as \<Longrightarrow>
   map_of (table_get (attrs c) ns) (Key a) = Some e \<Longrightarrow> IsFrozen (attr e) \<Longrightarrow>
   (Value a, IsFrozen a) \<noteq> (Value (attr e), IsFrozen (attr e)) \<Longrightarrow>
   TryUpdate c rf ns as = (Inl (FrozenAttributesError rf []), c)"
  using update_loop_frozen_change [of a as "table_get (attrs c) ns" e rf]
  by (auto simp: TryUpdate_def Let_def)

text \<open>
  The change to the frozen \<open>x\<close> is rejected, and the change to \<open>a\<close> proposed before it
  in the same call is not committed.
\<close>

theorem TryUpdate_frozen_change_fails_witness:
  "TryUpdate
     \<lparr>ref = At_id example_id (1 :: 32 word),
      attrs = [(''ns'', [(''x'', \<lparr>attr = Freeze_attr ''x'' ''v'', CreatedAt = 1, UpdatedAt = 1\<rparr>)])],
      seq = 3, is_done = False\<rparr>
     (At_id example_id 1) ''ns'' [Set_attr ''a'' ''1'', Set_attr ''x'' ''w'']
   = (Inl (FrozenAttributesError (At_id example_id 1) []),
      \<lparr>ref = At_id example_id 1,
       attrs = [(''ns'', [(''x'', \<lparr>attr = Freeze_attr ''x'' ''v'', CreatedAt = 1, UpdatedAt = 1\<rparr>)])],
       seq = 3, is_done = False\<rparr>)"
  using TryUpdate_frozen_change_fails [of
     "\<lparr>ref = At_id example_id (1 :: 32 word),
      attrs = [(''ns'', [(''x'', \<lparr>attr = Freeze_attr ''x'' ''v'', CreatedAt = 1, UpdatedAt = 1\<rparr>)])],
      seq = 3, is_done = False\<rparr>"
     "At_id example_id 1" "Set_attr ''x'' ''w''" "[Set_attr ''a'' ''1'', Set_attr ''x'' ''w'']"
     "''ns''" "\<lparr>attr = Freeze_attr ''x'' ''v'', CreatedAt = 1, UpdatedAt = 1\<rparr>"]
  by (simp add: table_get_def Set_attr_def Freeze_attr_def)

text \<open>
  The claim as stated, that the error's keys identify the offending attribute, fails:
  freezing \<open>x\<close> and then proposing another value for it is rejected with an error whose
  key list is empty.
\<close>

theorem TryUpdate_frozen_keys_counterexample:
  "snd (TryUpdate (NewCatalog example_id :: 32 word catalog) (At_id example_id 0) ''ns''
          [Freeze_attr ''x'' ''v''])
     = \<lparr>ref = At_id example_id 1,
        attrs = [(''ns'', [(''x'', \<lparr>attr = Freeze_attr ''x'' ''v'', CreatedAt = 1, UpdatedAt = 1\<rparr>)])],
        seq = 0, is_done = False\<rparr>
   \<and> fst (TryUpdate
       \<lparr>ref = At_id example_id (1 :: 32 word),
        attrs = [(''ns'', [(''x'', \<lparr>attr = Freeze_attr ''x'' ''v'', CreatedAt = 1, UpdatedAt = 1\<rparr>)])],
        seq = 0, is_done = False\<rparr>
       (At_id example_id 1) ''ns'' [Set_attr ''x'' ''w''])
     = Inl (FrozenAttributesError (At_id example_id 1) [])
   \<and> ''x'' \<notin> set ([] :: string list)"
  by (simp add: TryUpdate_def NewCatalog_def table_get_def ns_get_def NewDiff_def Append_def
      IsEmpty_def CloneAndMerge_def At_id_def zero_MetaAttr_def zero_Attr_def Set_attr_def
      Freeze_attr_def Let_def)

section \<open>Frozen attributes are permanent\<close>

lemma set_update_subset:
  "set (AList.update k v al) \<subseteq> insert (k, v) (set al)"
  by (induction al) auto

lemma wf_ns_update:
  "wf_ns na \<Longrightarrow> Key (attr e) = k \<Longrightarrow> wf_ns (AList.update k e na)"
  unfolding wf_ns_def list_all_iff
  using set_update_subset [of k e na] by (auto simp: distinct_update)

lemma wf_ns_Nil: "wf_ns []"
  by (simp add: wf_ns_def)

lemma update_loop_wf:
  "wf_ns na \<Longrightarrow> update_loop rf n as na d = Inr (na', d') \<Longrightarrow> wf_ns na'"
proof (induction as arbitrary: na d)
  case Nil
  then show ?case by simp
next
  case (Cons a rest)
  have step: "wf_ns (AList.update (Key a) (x\<lparr>attr := a, UpdatedAt := u\<rparr>) na)"
    "wf_ns (AList.update (Key a) (x\<lparr>attr := a, UpdatedAt := u, CreatedAt := v\<rparr>) na)"
    for x :: "'a word MetaAttr" and u v
    using Cons.prems(1) by (simp_all add: wf_ns_update)
  from Cons.prems(2) show ?case
    using Cons.IH [OF Cons.prems(1)] Cons.IH [OF step(1)] Cons.IH [OF step(2)]
    by (auto simp: Let_def split: if_splits)
qed

lemma update_loop_keeps_frozen:
  "map_of na k = Some e \<Longrightarrow> IsFrozen (attr e) \<Longrightarrow>
   update_loop rf n as na d = Inr (na', d') \<Longrightarrow> map_of na' k = Some e"
proof (induction as arbitrary: na d)
  case Nil
  then show ?case by simp
next
  case (Cons a rest)
  show ?case
  proof (cases "Key a = k")
    case True
    with Cons.prems have "ns_get na (Key a) = e" by (simp add: ns_get_def)
    with Cons.prems Cons.IH [of na d] show ?thesis
      by (auto simp: Let_def split: if_splits)
  next
    case False
    then have "map_of (AList.update (Key a) x na) k = Some e" for x
      using Cons.prems(1) by (simp add: update_conv')
    with Cons.prems Cons.IH show ?thesis
      by (auto simp: Let_def split: if_splits)
  qed
qed

lemma clear_loop_wf:
  "wf_ns na \<Longrightarrow> clear_loop rf n as na d = Inr (na', d') \<Longrightarrow> wf_ns na'"
proof (induction as arbitrary: na d)
  case Nil
  then show ?case by simp
next
  case (Cons p rest)
  obtain k e where p: "p = (k, e)" by (cases p)
  have step: "wf_ns (AList.update (Key (attr e)) e na)"
    "wf_ns (AList.update (Key (attr e))
       (e\<lparr>attr := (attr e)\<lparr>Value := []\<rparr>, UpdatedAt := n\<rparr>) na)"
    using Cons.prems(1) by (simp_all add: wf_ns_update)
  from Cons.prems(2) show ?case unfolding p
    using Cons.IH [OF step(1)] Cons.IH [OF step(2)]
    by (auto simp: Let_def split: if_splits)
qed

lemma clear_loop_keeps_frozen:
  "wf_ns as \<Longrightarrow> clear_loop rf n as na d = Inr (na', d') \<Longrightarrow>
   (\<forall>k e. map_of as k = Some e \<longrightarrow> IsFrozen (attr e) \<longrightarrow> map_of na' k = Some e)
   \<and> (\<forall>k. k \<notin> fst ` set as \<longrightarrow> map_of na' k = map_of na k)"
proof (induction as arbitrary: na d)
  case Nil
  then show ?case by simp
next
  case (Cons p rest)
  obtain k0 e0 where p: "p = (k0, e0)" by (cases p)
  from Cons.prems(1) have wfr: "wf_ns rest" and key0: "Key (attr e0) = k0"
    and fresh: "k0 \<notin> fst ` set rest"
    by (auto simp: wf_ns_def p)
  define e1 where "e1 = (if Value (attr e0) \<noteq> []
     then e0\<lparr>attr := (attr e0)\<lparr>Value := []\<rparr>, UpdatedAt := n\<rparr> else e0)"
  define d1 where "d1 = (if Value (attr e0) \<noteq> [] then Append d e1 else d)"
  from Cons.prems(2) have nofr: "Value (attr e0) \<noteq> [] \<Longrightarrow> \<not> IsFrozen (attr e0)"
    by (auto simp: p split: if_splits)
  from Cons.prems(2) have rec: "clear_loop rf n rest (AList.update k0 e1 na) d1 = Inr (na', d')"
    using key0 by (auto simp: p e1_def d1_def Let_def split: if_splits)
  note IH = Cons.IH [OF wfr rec]
  have frozen_same: "IsFrozen (attr e0) \<Longrightarrow> e1 = e0"
    using nofr by (auto simp: e1_def)
  have at_k0: "map_of na' k0 = Some e1"
    using IH fresh by (simp add: update_conv')
  show ?case
  proof (intro conjI allI impI)
    fix k e
    assume m: "map_of (p # rest) k = Some e" and fr: "IsFrozen (attr e)"
    show "map_of na' k = Some e"
    proof (cases "k = k0")
      case True
      with m have "e = e0" by (simp add: p)
      with fr frozen_same at_k0 True show ?thesis by simp
    next
      case False
      with m have "map_of rest k = Some e" by (simp add: p)
      with IH fr show ?thesis by blast
    qed
  next
    fix k
    assume "k \<notin> fst ` set (p # rest)"
    then have "k \<noteq> k0" "k \<notin> fst ` set rest" by (auto simp: p)
    with IH show "map_of na' k = map_of na k" by (simp add: update_conv')
  qed
qed

lemma table_get_update:
  "table_get (AList.update ns x t) m = (if m = ns then x else table_get t m)"
  by (simp add: table_get_def update_conv')

lemma wf_table_get:
  "wf_catalog c \<Longrightarrow> wf_ns (table_get (attrs c) ns)"
  by (auto simp: wf_catalog_def table_get_def list_all_iff wf_ns_Nil
      split: option.splits dest!: map_of_SomeD)

lemma wf_catalog_merge:
  "wf_catalog c \<Longrightarrow> wf_ns na \<Longrightarrow>
   wf_catalog (c\<lparr>ref := r, seq := s, attrs := CloneAndMerge (attrs c) ns na\<rparr>)"
  unfolding wf_catalog_def list_all_iff CloneAndMerge_def
  using set_update_subset [of ns na "attrs c"] by auto

lemma TryUpdate_keeps_frozen:
  assumes "wf_catalog c" and "TryUpdate c rf ns as = (res, c')"
  shows "wf_catalog c'"
    and "map_of (table_get (attrs c) m) k = Some e \<Longrightarrow> IsFrozen (attr e) \<Longrightarrow>
         map_of (table_get (attrs c') m) k = Some e"
proof -
  show "wf_catalog c'"
    using assms update_loop_wf [OF wf_table_get [OF assms(1)]] wf_catalog_merge [OF assms(1)]
    by (auto simp: TryUpdate_def Let_def wf_catalog_def split: if_splits sum.splits)
  show "map_of (table_get (attrs c') m) k = Some e"
    if "map_of (table_get (attrs c) m) k = Some e" "IsFrozen (attr e)"
    using assms(2) that update_loop_keeps_frozen [of "table_get (attrs c) ns" k e]
    by (auto simp: TryUpdate_def Let_def CloneAndMerge_def table_get_update
        split: if_splits sum.splits)
qed

lemma TryClear_keeps_frozen:
  assumes "wf_catalog c" and "TryClear c rf ns = (res, c')"
  shows "wf_catalog c'"
    and "map_of (table_get (attrs c) m) k = Some e \<Longrightarrow> IsFrozen (attr e) \<Longrightarrow>
         map_of (table_get (attrs c') m) k = Some e"
proof -
  show "wf_catalog c'"
    using assms clear_loop_wf [OF wf_ns_Nil] wf_catalog_merge [OF assms(1)]
    by (auto simp: TryClear_def Let_def wf_catalog_def split: if_splits sum.splits; blast)
  show "map_of (table_get (attrs c') m) k = Some e"
    if "map_of (table_get (attrs c) m) k = Some e" "IsFrozen (attr e)"
    using assms(2) that clear_loop_keeps_frozen [OF wf_table_get [OF assms(1)], of rf _ ns]
    by (auto simp: TryClear_def Let_def CloneAndMerge_def table_get_update
        split: if_splits sum.splits)
qed

lemma apply_call_keeps_frozen:
  assumes "wf_catalog c"
  shows "wf_catalog (snd (apply_call c x))"
    and "map_of (table_get (attrs c) m) k = Some e \<Longrightarrow> IsFrozen (attr e) \<Longrightarrow>
         map_of (table_get (attrs (snd (apply_call c x))) m) k = Some e"
proof -
  obtain res c' where ac: "apply_call c x = (res, c')" by (cases "apply_call c x")
  then show "wf_catalog (snd (apply_call c x))"
    using assms TryUpdate_keeps_frozen(1) TryClear_keeps_frozen(1)
    by (cases x) auto
  show "map_of (table_get (attrs (snd (apply_call c x))) m) k = Some e"
    if "map_of (table_get (attrs c) m) k = Some e" "IsFrozen (attr e)"
    using ac that assms TryUpdate_keeps_frozen(2) TryClear_keeps_frozen(2)
    by (cases x) auto
qed

text \<open>
  Every catalog that \<open>NewCatalog\<close> creates is well formed, and the calls keep it so.
\<close>

lemma wf_catalog_run: "wf_catalog c \<Longrightarrow> wf_catalog (run c xs)"
  by (induction xs arbitrary: c) (simp_all add: apply_call_keeps_frozen(1))

lemma wf_catalog_NewCatalog: "wf_catalog (NewCatalog sid)"
  by (simp add: wf_catalog_def NewCatalog_def)

text \<open>
  C2: an attribute that is frozen in a catalog is the same entry, with the same value
  and still frozen, after any sequence of \<open>TryUpdate\<close> and \<open>TryClear\<close> calls, whether
  they succeed or fail.
\<close>

theorem frozen_attribute_never_changes:
  "wf_catalog c \<Longrightarrow> map_of (table_get (attrs c) ns) k = Some e \<Longrightarrow> IsFrozen (attr e) \<Longrightarrow>
   map_of (table_get (attrs (run c xs)) ns) k = Some e
   \<and> Value (attr (ns_get (table_get (attrs (run c xs)) ns) k)) = Value (attr e)
   \<and> IsFrozen (attr (ns_get (table_get (attrs (run c xs)) ns) k))"
proof (induction xs arbitrary: c)
  case Nil
  then show ?case by (simp add: ns_get_def)
next
  case (Cons x xs)
  from Cons.prems
  have "wf_catalog (snd (apply_call c x))"
    and "map_of (table_get (attrs (snd (apply_call c x))) ns) k = Some e"
    by (simp_all add: apply_call_keeps_frozen)
  with Cons.IH [of "snd (apply_call c x)"] Cons.prems(3) show ?case by simp
qed

text \<open>
  A successful update of another key, a successful clear of the namespace \<open>m\<close> that holds
  the frozen empty \<open>y\<close>, and a rejected update and a rejected clear of the namespace that
  holds the frozen \<open>x\<close>.
\<close>

theorem frozen_attribute_never_changes_witness:
  "wf_catalog
     \<lparr>ref = At_id example_id (1 :: 32 word),
      attrs = [(''ns'', [(''x'', \<lparr>attr = Freeze_attr ''x'' ''v'', CreatedAt = 1, UpdatedAt = 1\<rparr>)]),
               (''m'', [(''y'', \<lparr>attr = Freeze_attr ''y'' [], CreatedAt = 1, UpdatedAt = 1\<rparr>),
                        (''b'', \<lparr>attr = Set_attr ''b'' ''2'', CreatedAt = 1, UpdatedAt = 1\<rparr>)])],
      seq = 0, is_done = False\<rparr>
   \<and> run
     \<lparr>ref = At_id example_id (1 :: 32 word),
      attrs = [(''ns'', [(''x'', \<lparr>attr = Freeze_attr ''x'' ''v'', CreatedAt = 1, UpdatedAt = 1\<rparr>)]),
               (''m'', [(''y'', \<lparr>attr = Freeze_attr ''y'' [], CreatedAt = 1, UpdatedAt = 1\<rparr>),
                        (''b'', \<lparr>attr = Set_attr ''b'' ''2'', CreatedAt = 1, UpdatedAt = 1\<rparr>)])],
      seq = 0, is_done = False\<rparr>
     [CallUpdate (At_id example_id 1) ''ns'' [Set_attr ''a'' ''1''],
      CallClear (At_id example_id 2) ''m'',
      CallUpdate (At_id example_id 3) ''ns'' [Set_attr ''x'' ''w''],
      CallClear (At_id example_id 3) ''ns'']
   = \<lparr>ref = At_id example_id 3,
      attrs = [(''ns'', [(''x'', \<lparr>attr = Freeze_attr ''x'' ''v'', CreatedAt = 1, UpdatedAt = 1\<rparr>),
                         (''a'', \<lparr>attr = Set_attr ''a'' ''1'', CreatedAt = 2, UpdatedAt = 2\<rparr>)]),
               (''m'', [(''y'', \<lparr>attr = Freeze_attr ''y'' [], CreatedAt = 1, UpdatedAt = 1\<rparr>),
                        (''b'', \<lparr>attr = Set_attr ''b'' [], CreatedAt = 1, UpdatedAt = 3\<rparr>)])],
      seq = 0, is_done = False\<rparr>"
  using frozen_attribute_never_changes [of
     "\<lparr>ref = At_id example_id (1 :: 32 word),
      attrs = [(''ns'', [(''x'', \<lparr>attr = Freeze_attr ''x'' ''v'', CreatedAt = 1, UpdatedAt = 1\<rparr>)]),
               (''m'', [(''y'', \<lparr>attr = Freeze_attr ''y'' [], CreatedAt = 1, UpdatedAt = 1\<rparr>),
                        (''b'', \<lparr>attr = Set_attr ''b'' ''2'', CreatedAt = 1, UpdatedAt = 1\<rparr>)])],
      seq = 0, is_done = False\<rparr>"
     "''m''" "''y''" "\<lparr>attr = Freeze_attr ''y'' [], CreatedAt = 1, UpdatedAt = 1\<rparr>"
     "[CallUpdate (At_id example_id 1) ''ns'' [Set_attr ''a'' ''1''],
      CallClear (At_id example_id 2) ''m'',
      CallUpdate (At_id example_id 3) ''ns'' [Set_attr ''x'' ''w''],
      CallClear (At_id example_id 3) ''ns'']"]
  by (simp add: wf_catalog_def wf_ns_def TryUpdate_def TryClear_def
      table_get_def ns_get_def NewDiff_def Append_def IsEmpty_def CloneAndMerge_def
      At_id_def zero_MetaAttr_def zero_Attr_def Set_attr_def Freeze_attr_def Let_def)

section \<open>Message IDs\<close>

lemma word_less_succ: "x \<noteq> - 1 \<Longrightarrow> x < x + 1" for x :: "'a::len word"
  by (metis inc_less_eq_triv_imp linorder_less_linear word_le_less_eq)

lemma id_less_trans: "id_less a b \<Longrightarrow> id_less b c \<Longrightarrow> id_less a c"
  by (auto simp: id_less_def)

lemma id_less_irrefl: "\<not> id_less a a"
  by (simp add: id_less_def)

lemma sorted_wrt_id_less_distinct: "sorted_wrt id_less xs \<Longrightarrow> distinct xs"
  by (induction xs) (auto simp: id_less_irrefl)

lemma NextMessageID_eq:
  "NextMessageID c = ((Message (ref c) (seq c + 1), attrs c), c\<lparr>seq := seq c + 1\<rparr>)"
  by (simp add: NextMessageID_def Let_def)

lemma funpow_NextMessageID:
  "((\<lambda>c. snd (NextMessageID c)) ^^ n) c = c\<lparr>seq := seq c + of_nat n\<rparr>"
  by (induction n) (simp_all add: NextMessageID_eq add.assoc add.commute)

lemma message_ids_above:
  "no_wrap c xs \<Longrightarrow>
   (\<forall>m \<in> set (message_ids c xs). id_less (Message (ref c) (seq c)) m \<and> ID (MsgRef m) = ID (ref c))
   \<and> sorted_wrt id_less (message_ids c xs)"
proof (induction xs arbitrary: c)
  case Nil
  then show ?case by simp
next
  case (Cons x xs)
  show ?case
  proof (cases x)
    case StepNext
    let ?c' = "c\<lparr>seq := seq c + 1\<rparr>"
    from Cons.prems StepNext have nw: "seq c \<noteq> - 1" "no_wrap ?c' xs"
      by (simp_all add: NextMessageID_eq)
    have first: "id_less (Message (ref c) (seq c)) (Message (ref c) (seq c + 1))"
      using nw(1) by (simp add: id_less_def Message_def word_less_succ)
    from Cons.IH [OF nw(2)]
    have rest: "\<forall>m \<in> set (message_ids ?c' xs).
        id_less (Message (ref c) (seq c + 1)) m \<and> ID (MsgRef m) = ID (ref c)"
      and srt: "sorted_wrt id_less (message_ids ?c' xs)"
      by simp_all
    from first rest have "\<forall>m \<in> set (message_ids ?c' xs). id_less (Message (ref c) (seq c)) m"
      using id_less_trans by blast
    with first rest srt show ?thesis
      by (simp add: StepNext NextMessageID_eq Message_def)
  next
    case (StepCall call)
    obtain res c' where ac: "apply_call c call = (res, c')" by (cases "apply_call c call")
    show ?thesis
    proof (cases res)
      case (Inl e)
      with ac have "c' = c" using apply_call_Inl by blast
      with ac Inl Cons.prems Cons.IH [of c] show ?thesis
        by (simp add: StepCall)
    next
      case (Inr r)
      with ac have c': "ref c' = (ref c)\<lparr>Rev := Rev (ref c) + 1\<rparr>" "seq c' = 0"
        using apply_call_Inr by blast+
      from Cons.prems StepCall ac Inr have nw: "Rev (ref c) \<noteq> - 1" "no_wrap c' xs"
        by simp_all
      have jump: "id_less (Message (ref c) (seq c)) (Message (ref c') (seq c'))"
        using nw(1) c' by (simp add: id_less_def Message_def word_less_succ)
      from Cons.IH [OF nw(2)]
      have rest: "\<forall>m \<in> set (message_ids c' xs).
          id_less (Message (ref c') (seq c')) m \<and> ID (MsgRef m) = ID (ref c')"
        and srt: "sorted_wrt id_less (message_ids c' xs)"
        by simp_all
      from jump rest have "\<forall>m \<in> set (message_ids c' xs). id_less (Message (ref c) (seq c)) m"
        using id_less_trans by blast
      with rest srt c' ac show ?thesis
        by (simp add: StepCall)
    qed
  qed
qed

text \<open>
  C5, as amended: as long as no counter wraps around (the 32-bit sequence counter is
  below its maximum at every \<open>NextMessageID\<close>, and the revision is below its maximum at
  every successful \<open>TryUpdate\<close> or \<open>TryClear\<close>), the message IDs that \<open>NextMessageID\<close>
  returns over any sequence of calls are strictly increasing in the lexicographic order
  of revision and sequence number, hence pairwise distinct, and all carry the catalog's
  session ID.
\<close>

theorem message_ids_increasing:
  "no_wrap c xs \<Longrightarrow>
   sorted_wrt id_less (message_ids c xs) \<and> distinct (message_ids c xs)
   \<and> (\<forall>m \<in> set (message_ids c xs). ID (MsgRef m) = ID (ref c))"
  using message_ids_above [of c xs] sorted_wrt_id_less_distinct [of "message_ids c xs"]
  by blast

text \<open>
  The scenario of the specification: at revision 3 the IDs are \<open>@3#1\<close> and \<open>@3#2\<close>, and
  after a successful update the next one is \<open>@4#1\<close>.
\<close>

theorem message_ids_increasing_witness:
  "no_wrap
     \<lparr>ref = At_id example_id (3 :: 32 word), attrs = [], seq = 0, is_done = False\<rparr>
     [StepNext, StepNext,
      StepCall (CallUpdate (At_id example_id 3) ''ns'' [Set_attr ''a'' ''1'']),
      StepNext]
   \<and> message_ids
     \<lparr>ref = At_id example_id (3 :: 32 word), attrs = [], seq = 0, is_done = False\<rparr>
     [StepNext, StepNext,
      StepCall (CallUpdate (At_id example_id 3) ''ns'' [Set_attr ''a'' ''1'']),
      StepNext]
   = [Message (At_id example_id 3) 1, Message (At_id example_id 3) 2,
      Message (At_id example_id 4) 1]"
  using message_ids_increasing [of
     "\<lparr>ref = At_id example_id (3 :: 32 word), attrs = [], seq = 0, is_done = False\<rparr>"
     "[StepNext, StepNext,
      StepCall (CallUpdate (At_id example_id 3) ''ns'' [Set_attr ''a'' ''1'']),
      StepNext]"]
  by (simp add: NextMessageID_def TryUpdate_def
      table_get_def ns_get_def NewDiff_def Append_def IsEmpty_def CloneAndMerge_def
      At_id_def Message_def zero_MetaAttr_def zero_Attr_def Set_attr_def Let_def)

text \<open>
  The claim as stated, for all calls over the catalog's lifetime, fails where the 32-bit
  sequence counter wraps around: on a fresh catalog with no update in between, call
  number \<open>2^32 + 1\<close> returns the ID that the first call returned; and after \<open>2^32 - 2\<close>
  calls the next two IDs have the sequence numbers \<open>0xFFFFFFFF\<close> and \<open>0\<close>, which do not
  increase.
\<close>

theorem message_ids_wrap_counterexample:
  "fst (fst (NextMessageID
      (((\<lambda>c. snd (NextMessageID c)) ^^ 4294967296) (NewCatalog example_id :: 32 word catalog))))
     = fst (fst (NextMessageID (NewCatalog example_id :: 32 word catalog)))
   \<and> ((\<lambda>c. snd (NextMessageID c)) ^^ 4294967294) (NewCatalog example_id :: 32 word catalog)
     = \<lparr>ref = At_id example_id 0, attrs = [], seq = 0xFFFFFFFE, is_done = False\<rparr>
   \<and> message_ids
        \<lparr>ref = At_id example_id (0 :: 32 word), attrs = [], seq = 0xFFFFFFFE, is_done = False\<rparr>
        [StepNext, StepNext]
     = [Message (At_id example_id 0) 0xFFFFFFFF, Message (At_id example_id 0) 0]
   \<and> \<not> id_less (Message (At_id example_id (0 :: 32 word)) 0xFFFFFFFF)
         (Message (At_id example_id 0) 0)"
proof -
  have again: "((\<lambda>c. snd (NextMessageID c)) ^^ 4294967296)
      (NewCatalog example_id :: 32 word catalog) = NewCatalog example_id"
    by (simp add: funpow_NextMessageID NewCatalog_def)
  have late: "((\<lambda>c. snd (NextMessageID c)) ^^ 4294967294)
      (NewCatalog example_id :: 32 word catalog)
      = \<lparr>ref = At_id example_id 0, attrs = [], seq = 0xFFFFFFFE, is_done = False\<rparr>"
    by (simp add: funpow_NextMessageID NewCatalog_def)
  show ?thesis
    unfolding again late
    by (simp add: NextMessageID_eq Message_def id_less_def)
qed

section \<open>The aggregate store and the placeholder\<close>

text \<open>
  C8, as amended: \<open>GetRevision\<close> returns what the store it selects returns (the local store
  for a ref of the own peer, the remote store otherwise), so its revision is nil only if
  that store's is; when the selected store is not configured it returns the
  closed-session placeholder with a nil error. The placeholder answers \<open>Refresh\<close>, \<open>Get\<close>,
  \<open>GetMany\<close> and \<open>Update\<close> with a \<open>NotFound\<close> error that carries the session ID, and
  \<open>Close\<close> with a nil error.
\<close>

theorem GetRevision_placeholder:
  "(Peer (ID rf) = agg_PeerID s \<longrightarrow> Local s = None \<longrightarrow>
      GetRevision s rf = (Some (Closed_id (ID rf)), None))
   \<and> (Peer (ID rf) \<noteq> agg_PeerID s \<longrightarrow> Remote s = None \<longrightarrow>
      GetRevision s rf = (Some (Closed_id (ID rf)), None))
   \<and> (\<forall>l. Peer (ID rf) = agg_PeerID s \<longrightarrow> Local s = Some l \<longrightarrow> GetRevision s rf = l rf)
   \<and> (\<forall>r. Peer (ID rf) \<noteq> agg_PeerID s \<longrightarrow> Remote s = Some r \<longrightarrow> GetRevision s rf = r rf)
   \<and> (\<exists>r. Closed_id (ID rf) = closedRevision r \<and> ID r = ID rf
        \<and> closed_Refresh r = (None, Some (NotFoundError (ID rf)))
        \<and> (\<forall>k. closed_Get r k = (zero_Attr, Some (NotFoundError (ID rf))))
        \<and> (\<forall>ks. closed_GetMany r ks = (None, Some (NotFoundError (ID rf))))
        \<and> (\<forall>as. closed_Update r as = (Some (closedRevision r), Some (NotFoundError (ID rf))))
        \<and> closed_Close r = None)"
  by (simp add: GetRevision_def Closed_id_def Closed_def At_id_def closed_Refresh_def
      closed_Get_def closed_GetMany_def closed_Update_def closed_Close_def)

text \<open>
  With no store configured, the ref \<open>1-0BAD.7@5\<close> gets the placeholder, whose \<open>Get\<close>
  reports that the session \<open>1-0BAD.7\<close> is not found.
\<close>

theorem GetRevision_placeholder_witness:
  "GetRevision \<lparr>agg_PeerID = Peer example_id, Local = None, Remote = None\<rparr>
      (At_id example_id (5 :: 32 word))
     = (Some (closedRevision (At_id example_id 0)), None)
   \<and> GetRevision \<lparr>agg_PeerID = \<lparr>Clock = 2, Rand = 1\<rparr>, Local = None, Remote = None\<rparr>
      (At_id example_id (5 :: 32 word))
     = (Some (closedRevision (At_id example_id 0)), None)
   \<and> closed_Get (At_id example_id (0 :: 32 word)) ''a''
     = (zero_Attr, Some (NotFoundError example_id))
   \<and> GetRevision
        \<lparr>agg_PeerID = Peer example_id,
         Local = Some (catalog_store (NewCatalog example_id)), Remote = None\<rparr>
        (At_id example_id (0 :: 32 word))
     = (Some (LocalRevision \<lparr>rev_ref = At_id example_id 0, rev_attrs = []\<rparr>), None)"
  using
    GetRevision_placeholder [of "At_id example_id (5 :: 32 word)"
      "\<lparr>agg_PeerID = Peer example_id, Local = None, Remote = None\<rparr>"]
    GetRevision_placeholder [of "At_id example_id (5 :: 32 word)"
      "\<lparr>agg_PeerID = \<lparr>Clock = 2, Rand = 1\<rparr>, Local = None, Remote = None\<rparr>"]
    GetRevision_placeholder [of "At_id example_id (0 :: 32 word)"
      "\<lparr>agg_PeerID = Peer example_id,
         Local = Some (catalog_store (NewCatalog example_id)), Remote = None\<rparr>"]
  by (simp add: GetRevision_def Closed_id_def Closed_def At_id_def example_id_def
      closed_Get_def catalog_store_def NewCatalog_def At_def)

text \<open>
  The claim as stated, that \<open>GetRevision\<close> never returns a nil revision, fails where the
  selected store returns one: a local store that answers with \<open>catalog.At\<close> returns nil
  and the error "revision is from the future" for the ref \<open>1-0BAD.7@5\<close> of a fresh
  session, and so does \<open>GetRevision\<close>.
\<close>

theorem GetRevision_nil_counterexample:
  "GetRevision
     \<lparr>agg_PeerID = Peer example_id,
      Local = Some (catalog_store (NewCatalog example_id)), Remote = None\<rparr>
     (At_id example_id (5 :: 32 word))
   = (None, Some (ErrorString ''revision is from the future''))"
  by (simp add: GetRevision_def catalog_store_def NewCatalog_def At_def At_id_def)

section \<open>Responding once\<close>

lemma respond_closes: "isClosed (snd (respond r t msg))"
  by (simp add: respond_def Let_def split: option.splits)

text \<open>
  C9, as amended: the first call of \<open>Done\<close>, \<open>Error\<close>, \<open>Fail\<close> or \<open>Close\<close> on an open response
  marks it closed, whether the call returns or panics in the transport. After that,
  \<open>Done\<close>, \<open>Error\<close> and \<open>Fail\<close> panic with "responder is already closed" and change
  nothing, while \<open>Close\<close> does not panic: it returns false, and changes and publishes
  nothing.
\<close>

theorem response_closed_once:
  "(\<not> isClosed r \<longrightarrow>
      isClosed (snd (Done r t payload)) \<and> isClosed (snd (Error r t err))
      \<and> isClosed (snd (Fail r t ty message)) \<and> isClosed (snd (Close r t)))
   \<and> (isClosed r \<longrightarrow>
      Done r t payload = (Panicked ''responder is already closed'', r)
      \<and> Error r t err = (Panicked ''responder is already closed'', r)
      \<and> Fail r t ty message = (Panicked ''responder is already closed'', r)
      \<and> Close r t = (Returned False, r))"
proof -
  have "isClosed (snd (Fail r t ty message))" if "\<not> isClosed r"
    using that respond_closes [of r t "ErrorBody (Failure ty message)"]
    by (auto simp: Fail_def Error_def Let_def split: prod.splits outcome.splits)
  moreover have "isClosed (snd (Close r t))" if "\<not> isClosed r"
    using that respond_closes [of r t "SuccessBody None"]
    by (auto simp: Close_def split: prod.splits outcome.splits)
  ultimately show ?thesis
    by (simp add: Done_def Error_def Fail_def Close_def respond_closes)
qed

text \<open>
  A response that expects a correlated reply over a working transport: \<open>Done\<close> publishes
  the payload and closes it; a second \<open>Done\<close> panics, and so does \<open>Fail\<close>.
\<close>

theorem response_closed_once_witness:
  "Done \<lparr>replyMode = replyCorrelated, isClosed = False, published = []\<rparr>
      \<lparr>deadline_passed = False, get_error = None, span_error = None, publish_error = None\<rparr>
      (Some (7 :: nat))
     = (Returned (),
        \<lparr>replyMode = replyCorrelated, isClosed = True, published = [SuccessBody (Some 7)]\<rparr>)
   \<and> Done \<lparr>replyMode = replyCorrelated, isClosed = True, published = [SuccessBody (Some 7)]\<rparr>
      \<lparr>deadline_passed = False, get_error = None, span_error = None, publish_error = None\<rparr>
      (Some (8 :: nat))
     = (Panicked ''responder is already closed'',
        \<lparr>replyMode = replyCorrelated, isClosed = True, published = [SuccessBody (Some 7)]\<rparr>)
   \<and> Fail \<lparr>replyMode = replyCorrelated, isClosed = True, published = [SuccessBody (Some (7 :: nat))]\<rparr>
      \<lparr>deadline_passed = False, get_error = None, span_error = None, publish_error = None\<rparr>
      ''type'' ''message''
     = (Panicked ''responder is already closed'',
        \<lparr>replyMode = replyCorrelated, isClosed = True, published = [SuccessBody (Some 7)]\<rparr>)"
  using
    response_closed_once [of
      "\<lparr>replyMode = replyCorrelated, isClosed = False, published = []\<rparr>"
      "\<lparr>deadline_passed = False, get_error = None, span_error = None, publish_error = None\<rparr>"
      "Some (7 :: nat)"]
    response_closed_once [of
      "\<lparr>replyMode = replyCorrelated, isClosed = True, published = [SuccessBody (Some (7 :: nat))]\<rparr>"
      "\<lparr>deadline_passed = False, get_error = None, span_error = None, publish_error = None\<rparr>"
      "Some (8 :: nat)" _ "''type''" "''message''"]
  by (simp add: Done_def respond_def Let_def)

text \<open>
  The claim as stated, that each of the four calls panics on a closed response, fails for
  \<open>Close\<close>: on the response that \<open>Done\<close> has closed it returns false and leaves the
  response as it is.
\<close>

theorem response_Close_counterexample:
  "snd (Done \<lparr>replyMode = replyCorrelated, isClosed = False, published = []\<rparr>
      \<lparr>deadline_passed = False, get_error = None, span_error = None, publish_error = None\<rparr>
      (Some (7 :: nat)))
     = \<lparr>replyMode = replyCorrelated, isClosed = True, published = [SuccessBody (Some 7)]\<rparr>
   \<and> Close \<lparr>replyMode = replyCorrelated, isClosed = True, published = [SuccessBody (Some (7 :: nat))]\<rparr>
      \<lparr>deadline_passed = False, get_error = None, span_error = None, publish_error = None\<rparr>
     = (Returned False,
        \<lparr>replyMode = replyCorrelated, isClosed = True, published = [SuccessBody (Some 7)]\<rparr>)"
  by (simp add: Done_def Close_def respond_def Let_def)

section \<open>Reference counting of payloads\<close>

text \<open>
  C10: \<open>Clone\<close> of a payload that has data adds exactly 1 to the shared count and returns
  a new payload structure with the same data, leaving the pool and all other data as
  they are. \<open>Close\<close> of a payload that has data takes exactly 1 from the count and
  detaches the payload, and puts the buffer into the pool exactly when the count has
  reached 0 (and there is a buffer: data that was never encoded has none to return).
  \<open>Clone\<close> and \<open>Close\<close> of a nil payload or of a closed one change nothing.
\<close>

theorem payload_reference_counting:
  "(payloads h a = Some d \<longrightarrow>
      fst (Clone h (Some a)) = Some (next_payload h)
      \<and> payloads (snd (Clone h (Some a))) (next_payload h) = Some d
      \<and> (a \<noteq> next_payload h \<longrightarrow> payloads (snd (Clone h (Some a))) a = Some d)
      \<and> datas (snd (Clone h (Some a))) d = (datas h d)\<lparr>refCount := refCount (datas h d) + 1\<rparr>
      \<and> (\<forall>d'. d' \<noteq> d \<longrightarrow> datas (snd (Clone h (Some a))) d' = datas h d')
      \<and> pool (snd (Clone h (Some a))) = pool h)
   \<and> (payloads h a = Some d \<longrightarrow>
      payloads (Close_payload h (Some a)) a = None
      \<and> (\<forall>a'. a' \<noteq> a \<longrightarrow> payloads (Close_payload h (Some a)) a' = payloads h a')
      \<and> datas (Close_payload h (Some a)) d = (datas h d)\<lparr>refCount := refCount (datas h d) - 1\<rparr>
      \<and> (\<forall>d'. d' \<noteq> d \<longrightarrow> datas (Close_payload h (Some a)) d' = datas h d')
      \<and> pool (Close_payload h (Some a))
          = (if refCount (datas h d) - 1 = 0
             then (case buffer (datas h d) of Some b \<Rightarrow> b # pool h | None \<Rightarrow> pool h)
             else pool h))
   \<and> (payloads h a = None \<longrightarrow>
      Close_payload h (Some a) = h \<and> Clone h (Some a) = (None, h))
   \<and> Close_payload h None = h \<and> Clone h None = (None, h)
   \<and> payloads (Close_payload h (Some a)) a = None
   \<and> Close_payload (Close_payload h (Some a)) (Some a) = Close_payload h (Some a)"
proof -
  have closed: "payloads (Close_payload h (Some a)) a = None"
    by (simp add: Close_payload_def Let_def split: option.splits)
  then have "Close_payload (Close_payload h (Some a)) (Some a) = Close_payload h (Some a)"
    by (simp add: Close_payload_def [of "Close_payload h (Some a)"])
  with closed show ?thesis
    by (auto simp: Clone_def Close_payload_def Let_def split: option.splits)
qed

text \<open>
  A payload made from three bytes, cloned once: the count is 2; closing the first
  payload leaves 1 and an empty pool, closing it again changes nothing, and closing the
  clone leaves 0 and the buffer in the pool.
\<close>

theorem payload_reference_counting_witness:
  "fst (NewPayloadFromBytes (empty_heap :: (unit, 64 word) heap) [1, 2, 3]) = Some 0
   \<and> payloads (snd (NewPayloadFromBytes (empty_heap :: (unit, 64 word) heap) [1, 2, 3])) 0 = Some 0
   \<and> fst (Clone (snd (NewPayloadFromBytes (empty_heap :: (unit, 64 word) heap) [1, 2, 3])) (Some 0))
       = Some 1
   \<and> refCount (datas (snd (Clone
         (snd (NewPayloadFromBytes (empty_heap :: (unit, 64 word) heap) [1, 2, 3])) (Some 0))) 0)
       = 2
   \<and> refCount (datas (Close_payload (snd (Clone
         (snd (NewPayloadFromBytes (empty_heap :: (unit, 64 word) heap) [1, 2, 3])) (Some 0)))
         (Some 0)) 0) = 1
   \<and> pool (Close_payload (snd (Clone
         (snd (NewPayloadFromBytes (empty_heap :: (unit, 64 word) heap) [1, 2, 3])) (Some 0)))
         (Some 0)) = []
   \<and> refCount (datas (Close_payload (Close_payload (snd (Clone
         (snd (NewPayloadFromBytes (empty_heap :: (unit, 64 word) heap) [1, 2, 3])) (Some 0)))
         (Some 0)) (Some 0)) 0) = 1
   \<and> refCount (datas (Close_payload (Close_payload (snd (Clone
         (snd (NewPayloadFromBytes (empty_heap :: (unit, 64 word) heap) [1, 2, 3])) (Some 0)))
         (Some 0)) (Some 1)) 0) = 0
   \<and> pool (Close_payload (Close_payload (snd (Clone
         (snd (NewPayloadFromBytes (empty_heap :: (unit, 64 word) heap) [1, 2, 3])) (Some 0)))
         (Some 0)) (Some 1)) = [[1, 2, 3]]"
  using
    payload_reference_counting [of
      "snd (NewPayloadFromBytes (empty_heap :: (unit, 64 word) heap) [1, 2, 3])" 0 0]
    payload_reference_counting [of
      "snd (Clone (snd (NewPayloadFromBytes (empty_heap :: (unit, 64 word) heap) [1, 2, 3]))
         (Some 0))" 0 0]
  by (simp add: NewPayloadFromBytes_def empty_heap_def Clone_def Close_payload_def Let_def)

section \<open>The older catalog names the frozen keys\<close>

lemma legacy_loop_collects:
  "map_of na (Key a) = Some e \<Longrightarrow> IsFrozen (attr e) \<Longrightarrow>
   \<not> (Value a = Value (attr e) \<and> IsFrozen a = IsFrozen (attr e)) \<Longrightarrow>
   a \<in> set as \<or> Key a \<in> set fr \<Longrightarrow>
   \<exists>na' fr'. legacy_loop wr n i as na fr None = (Inr (na', fr'), None) \<and> Key a \<in> set fr'"
proof (induction as arbitrary: na fr i)
  case Nil
  then show ?case by simp
next
  case (Cons b rest)
  show ?case
  proof (cases "Key b = Key a")
    case True
    with Cons.prems have ent: "ns_get na (Key b) = e" by (simp add: ns_get_def)
    show ?thesis
    proof (cases "Value b = Value (attr e) \<and> IsFrozen b = IsFrozen (attr e)")
      case same: True
      with Cons.prems have "b \<noteq> a" by auto
      with Cons.prems have "a \<in> set rest \<or> Key a \<in> set fr" by auto
      from Cons.IH [OF Cons.prems(1,2,3) this, of "Suc i"] same ent show ?thesis
        by (simp add: Let_def)
    next
      case False
      have "a \<in> set rest \<or> Key a \<in> set (fr @ [Key b])" using True by simp
      from Cons.IH [OF Cons.prems(1,2,3) this, of "Suc i"] False ent Cons.prems(2)
      show ?thesis by (auto simp: Let_def)
    qed
  next
    case False
    then have keep: "map_of (AList.update (Key b) x na) (Key a) = Some e" for x
      using Cons.prems(1) by (simp add: update_conv')
    from False Cons.prems have mem: "a \<in> set rest \<or> Key a \<in> set fr" by auto
    then have mem': "a \<in> set rest \<or> Key a \<in> set (fr @ [Key b])" by auto
    from Cons.IH [OF Cons.prems(1,2,3) mem, of "Suc i"]
      Cons.IH [OF Cons.prems(1,2,3) mem', of "Suc i"]
      Cons.IH [OF keep Cons.prems(2,3) mem, where i = "Suc i"]
    show ?thesis by (simp add: Let_def)
  qed
qed

text \<open>
  X1: in the older catalog, called without a writer, a \<open>TryUpdate\<close> with the current ref
  on an open catalog whose proposed attributes include a change to a frozen attribute
  fails with a \<open>FrozenAttributes\<close> error whose keys include the key of that attribute, and
  the catalog is as before. (The current catalog reports no keys, see C3.)
\<close>

theorem TryUpdate_legacy_names_keys:
  "\<not> l_isClosed c \<Longrightarrow> rf = l_ref c \<Longrightarrow> a \<in> set as \<Longrightarrow>
   map_of (l_attrs c) (Key a) = Some e \<Longrightarrow> IsFrozen (attr e) \<Longrightarrow>
   (Value a, IsFrozen a) \<noteq> (Value (attr e), IsFrozen (attr e)) \<Longrightarrow>
   \<exists>keys. TryUpdate_legacy c rf as wr None = (Inl (LegacyFrozenAttributes rf keys), c, None)
          \<and> Key a \<in> set keys"
proof -
  assume a: "\<not> l_isClosed c" "rf = l_ref c" "a \<in> set as"
    "map_of (l_attrs c) (Key a) = Some e" "IsFrozen (attr e)"
    "(Value a, IsFrozen a) \<noteq> (Value (attr e), IsFrozen (attr e))"
  then obtain na' fr' where
    "legacy_loop wr (Rev rf + 1) 0 as (l_attrs c) [] None = (Inr (na', fr'), None)"
    "Key a \<in> set fr'"
    using legacy_loop_collects [of "l_attrs c" a e as "[]" wr "Rev rf + 1" 0] by auto
  with a show ?thesis
    by (auto simp: TryUpdate_legacy_def Let_def)
qed

text \<open>
  With the frozen \<open>x\<close> in the table, proposing \<open>a=1\<close> and another value for \<open>x\<close> fails,
  names \<open>x\<close>, and leaves the catalog as it is.
\<close>

theorem TryUpdate_legacy_names_keys_witness:
  "TryUpdate_legacy
     \<lparr>l_ref = At_id example_id (1 :: 32 word),
      l_attrs = [(''x'', \<lparr>attr = Freeze_attr ''x'' ''v'', CreatedAt = 1, UpdatedAt = 1\<rparr>)],
      l_seq = 3, l_isClosed = False\<rparr>
     (At_id example_id 1) [Set_attr ''a'' ''1'', Set_attr ''x'' ''w'']
     (\<lambda>w s. (None, w @ [s])) (None :: string list option)
   = (Inl (LegacyFrozenAttributes (At_id example_id 1) [''x'']),
      \<lparr>l_ref = At_id example_id 1,
       l_attrs = [(''x'', \<lparr>attr = Freeze_attr ''x'' ''v'', CreatedAt = 1, UpdatedAt = 1\<rparr>)],
       l_seq = 3, l_isClosed = False\<rparr>,
      None)"
  using TryUpdate_legacy_names_keys [of
     "\<lparr>l_ref = At_id example_id (1 :: 32 word),
      l_attrs = [(''x'', \<lparr>attr = Freeze_attr ''x'' ''v'', CreatedAt = 1, UpdatedAt = 1\<rparr>)],
      l_seq = 3, l_isClosed = False\<rparr>"
     "At_id example_id 1" "Set_attr ''x'' ''w''" "[Set_attr ''a'' ''1'', Set_attr ''x'' ''w'']"
     "\<lparr>attr = Freeze_attr ''x'' ''v'', CreatedAt = 1, UpdatedAt = 1\<rparr>"
     "\<lambda>w s. (None, w @ [s])"]
  by (simp add: TryUpdate_legacy_def ns_get_def zero_MetaAttr_def zero_Attr_def
      Set_attr_def Freeze_attr_def Let_def At_id_def)

end
